theory Spec2Isabelle
  imports Main
begin

section \<open>The preview script: port finder, server and browser launcher\<close>

text \<open>
  The script \<^verbatim>\<open>preview.py\<close> has three functions and a main block. Everything it does
  goes through the operating system: binding a listening socket, serving requests,
  running a shell command, writing to the console. The model makes those calls explicit:
  \<^item> a call whose failure the source handles (\<^verbatim>\<open>socketserver.TCPServer(...)\<close>,
    \<^verbatim>\<open>httpd.serve_forever()\<close>, \<^verbatim>\<open>os.system(...)\<close>) is a parameter that gives the
    call's outcome: it returns, or it raises an exception;
  \<^item> every external call is recorded, in program order, in a list of events;
  \<^item> \<^verbatim>\<open>print\<close>, \<^verbatim>\<open>time.sleep\<close>, \<^verbatim>\<open>Thread.start\<close> and \<^verbatim>\<open>webbrowser.open\<close> (whose
    boolean result the source discards) are recorded and taken to return;
  \<^item> a function that raises returns \<open>Inl\<close> of the exception, one that returns a port
    returns \<open>Inr\<close> of it;
  \<^item> both loops (the \<^verbatim>\<open>while True\<close> of the port finder, the recursion of the server)
    are partial functions into \<open>option\<close>: a run that never ends has the value \<open>None\<close>.
  The interpreter's recursion limit and a user interrupt that arrives outside a modelled
  call are not part of the model.
\<close>

subsection \<open>Exceptions, outcomes and events\<close>

text \<open>
  \<open>OSError\<close> carries its \<^verbatim>\<open>errno\<close> attribute, which Python allows to be \<^verbatim>\<open>None\<close>;
  \<open>Exception\<close> carries its message; \<open>OtherError\<close> stands for any other exception class,
  by name (for instance the \<^verbatim>\<open>OverflowError\<close> of a port outside 0..65535).
\<close>

datatype exn =
    OSError "int option"
  | Exception string
  | KeyboardInterrupt
  | OtherError string

datatype 'a outcome = Returns 'a | Raises exn

datatype event =
    Bind int
  | Close int
  | Print string
  | ServeForever int
  | ThreadStart int
  | Sleep
  | OsSystem string
  | WebbrowserOpen string

text \<open>
  \<open>Bind p\<close> is the construction of a \<^verbatim>\<open>TCPServer\<close> on port \<open>p\<close> (recorded when it is
  attempted), \<open>Close p\<close> the exit of the \<^verbatim>\<open>with\<close> block that held it, \<open>ThreadStart p\<close> the
  start of the daemon thread that runs \<^verbatim>\<open>open_in_safari(p)\<close>, \<open>Sleep\<close> the call
  \<^verbatim>\<open>time.sleep(1.5)\<close>.
\<close>

subsection \<open>Formatting a port number\<close>

text \<open>The decimal text of an integer, as an f-string prints it.\<close>

definition digit :: "nat \<Rightarrow> char" where
  "digit d = ''0123456789'' ! d"

function str_nat :: "nat \<Rightarrow> string" where
  "str_nat n = (if n < 10 then [digit n] else str_nat (n div 10) @ [digit (n mod 10)])"
  by pat_completeness auto
termination
  by (relation "measure (\<lambda>n. n)") auto

declare str_nat.simps [simp del]

definition str :: "int \<Rightarrow> string" where
  "str i = (if i < 0 then CHR ''-'' # str_nat (nat (- i)) else str_nat (nat i))"

definition url_of :: "int \<Rightarrow> string" where
  "url_of port = ''http://localhost:'' @ str port @ ''/''"

subsection \<open>The address-in-use test\<close>

text \<open>
  Both handlers are \<^verbatim>\<open>except OSError as e: if e.errno == 48: ... else: raise e\<close>.
  An exception that is not an \<open>OSError\<close> passes the handler untouched.
\<close>

fun address_in_use :: "exn \<Rightarrow> bool" where
  "address_in_use (OSError en) = (en = Some 48)"
| "address_in_use _ = False"

subsection \<open>Port Finder\<close>

text \<open>
  \<^verbatim>\<open>find_available_port(start_port)\<close>: \<open>tcp_server p\<close> is the outcome of constructing the
  test server on port \<open>p\<close>. The candidates only grow, so each port is probed at most once
  in a call and a function of the port describes every behaviour of the system.
\<close>

partial_function (option) find_available_port_loop ::
  "(int \<Rightarrow> unit outcome) \<Rightarrow> int \<Rightarrow> int \<Rightarrow> event list \<Rightarrow> ((exn + int) \<times> event list) option"
where
  "find_available_port_loop tcp_server start_port port tr =
     (case tcp_server port of
        Returns _ \<Rightarrow> Some (Inr port, tr @ [Bind port, Close port])
      | Raises e \<Rightarrow>
          if address_in_use e then
            (let port' = port + 1 in
             if port' > start_port + 100
             then Some (Inl (Exception ''Could not find available port''), tr @ [Bind port])
             else find_available_port_loop tcp_server start_port port' (tr @ [Bind port]))
          else Some (Inl e, tr @ [Bind port]))"

definition find_available_port ::
  "(int \<Rightarrow> unit outcome) \<Rightarrow> int \<Rightarrow> ((exn + int) \<times> event list) option" where
  "find_available_port tcp_server start_port =
     find_available_port_loop tcp_server start_port start_port []"

subsection \<open>Server\<close>

definition running_msg :: "int \<Rightarrow> string" where
  "running_msg port = ''Server running at '' @ url_of port"

definition in_use_msg :: "int \<Rightarrow> string" where
  "in_use_msg port =
     ''Port '' @ str port @ '' is already in use, trying port '' @ str (port + 1)"

text \<open>
  \<^verbatim>\<open>start_server(port)\<close>: \<open>tcp_server p\<close> is the outcome of binding the server on port
  \<open>p\<close>, \<open>serve_forever p\<close> the way \<^verbatim>\<open>httpd.serve_forever()\<close> ends on the server bound to
  \<open>p\<close>. The \<^verbatim>\<open>try\<close> block encloses the whole \<^verbatim>\<open>with\<close> statement, so the handler also
  sees what \<^verbatim>\<open>serve_forever\<close> raises; the \<^verbatim>\<open>with\<close> block closes the server before the
  handler runs. The recursive call sits in the handler, outside the \<^verbatim>\<open>try\<close>: what it raises
  is not handled again.
\<close>

partial_function (option) start_server ::
  "(int \<Rightarrow> unit outcome) \<Rightarrow> (int \<Rightarrow> unit outcome) \<Rightarrow> int \<Rightarrow> event list \<Rightarrow>
   ((exn + int) \<times> event list) option"
where
  "start_server tcp_server serve_forever port tr =
     (case tcp_server port of
        Returns _ \<Rightarrow>
          (let tr1 = tr @ [Bind port, Print (running_msg port),
                           Print ''Press Ctrl+C to stop the server'', ServeForever port]
           in case serve_forever port of
                Returns _ \<Rightarrow> Some (Inr port, tr1 @ [Close port])
              | Raises e \<Rightarrow>
                  if address_in_use e
                  then start_server tcp_server serve_forever (port + 1)
                         (tr1 @ [Close port, Print (in_use_msg port)])
                  else Some (Inl e, tr1 @ [Close port]))
      | Raises e \<Rightarrow>
          if address_in_use e
          then start_server tcp_server serve_forever (port + 1)
                 (tr @ [Bind port, Print (in_use_msg port)])
          else Some (Inl e, tr @ [Bind port]))"

subsection \<open>Launcher\<close>

definition safari_cmd :: "string \<Rightarrow> string" where
  "safari_cmd url = ''open -a Safari '' @ [CHR 0x22] @ url @ [CHR 0x22]"

definition safari_msg :: "string \<Rightarrow> string" where
  "safari_msg url = ''Opening '' @ url @ '' in Safari...''"

definition default_msg :: "string \<Rightarrow> string" where
  "default_msg url = ''Opening '' @ url @ '' in default browser...''"

text \<open>
  \<^verbatim>\<open>open_in_safari(port)\<close>: \<open>os_system c\<close> is the outcome of \<^verbatim>\<open>os.system(c)\<close>, an exit
  status or an exception. The status is discarded by the source; the bare \<^verbatim>\<open>except:\<close>
  catches every exception.
\<close>

definition open_in_safari :: "(string \<Rightarrow> int outcome) \<Rightarrow> int \<Rightarrow> event list" where
  "open_in_safari os_system port =
     (let url = url_of port
      in case os_system (safari_cmd url) of
           Returns _ \<Rightarrow> [Sleep, OsSystem (safari_cmd url), Print (safari_msg url)]
         | Raises _ \<Rightarrow>
             [Sleep, OsSystem (safari_cmd url), WebbrowserOpen url, Print (default_msg url)])"

subsection \<open>The main block\<close>

text \<open>
  The port finder and the server bind at different times, so the system may answer them
  differently on the same port: \<open>finder_tcp\<close> answers the finder's probes, \<open>server_tcp\<close>
  the server's binds.
\<close>

record world =
  finder_tcp :: "int \<Rightarrow> unit outcome"
  server_tcp :: "int \<Rightarrow> unit outcome"
  serve :: "int \<Rightarrow> unit outcome"
  os_system :: "string \<Rightarrow> int outcome"

text \<open>
  How the process ends: through \<^verbatim>\<open>sys.exit(n)\<close>, with an exception that nothing catches,
  or by reaching the end of the script.
\<close>

datatype exit = SysExit int | Uncaught exn | Finished

text \<open>
  A run keeps the events of the main thread and, apart, the events of the daemon thread:
  \<open>None\<close> when it was never started, otherwise what \<^verbatim>\<open>open_in_safari\<close> does when it runs
  to its end. How the two threads interleave, and a process that exits before the daemon
  thread has finished, are not modelled.
\<close>

record run =
  exit_by :: exit
  main_thread :: "event list"
  safari_thread :: "event list option"

definition main :: "world \<Rightarrow> run option" where
  "main w =
     (case find_available_port (finder_tcp w) 8000 of
        None \<Rightarrow> None
      | Some (Inl e, tr) \<Rightarrow>
          Some \<lparr>exit_by = Uncaught e, main_thread = tr, safari_thread = None\<rparr>
      | Some (Inr port, tr) \<Rightarrow>
          (let safari = Some (open_in_safari (os_system w) port)
           in case start_server (server_tcp w) (serve w) port (tr @ [ThreadStart port]) of
                None \<Rightarrow> None
              | Some (Inr _, tr') \<Rightarrow>
                  Some \<lparr>exit_by = Finished, main_thread = tr', safari_thread = safari\<rparr>
              | Some (Inl e, tr') \<Rightarrow>
                  if e = KeyboardInterrupt
                  then Some \<lparr>exit_by = SysExit 0,
                             main_thread = tr' @ [Print (CHR 0x0A # ''Server stopped.'')],
                             safari_thread = safari\<rparr>
                  else Some \<lparr>exit_by = Uncaught e, main_thread = tr',
                             safari_thread = safari\<rparr>))"

subsection \<open>Concrete systems\<close>

text \<open>Port 8000 is taken and every other port is free.\<close>

definition busy_8000 :: "int \<Rightarrow> unit outcome" where
  "busy_8000 p = (if p = 8000 then Raises (OSError (Some 48)) else Returns ())"

text \<open>Ports 8000 to 8100 are taken.\<close>

definition busy_window :: "int \<Rightarrow> unit outcome" where
  "busy_window p = (if 8000 \<le> p \<and> p \<le> 8100 then Raises (OSError (Some 48)) else Returns ())"

definition all_free :: "int \<Rightarrow> unit outcome" where
  "all_free p = Returns ()"

definition interrupted :: "int \<Rightarrow> unit outcome" where
  "interrupted p = Raises KeyboardInterrupt"

text \<open>Port 8000 is taken, port 8001 refuses the bind with \<^verbatim>\<open>EACCES\<close> (13).\<close>

definition busy_then_denied :: "int \<Rightarrow> unit outcome" where
  "busy_then_denied p =
     (if p = 8000 then Raises (OSError (Some 48))
      else if p = 8001 then Raises (OSError (Some 13)) else Returns ())"

text \<open>Port 8000 is taken on a system that reports it with the Linux code 98.\<close>

definition linux_busy_8000 :: "int \<Rightarrow> unit outcome" where
  "linux_busy_8000 p = (if p = 8000 then Raises (OSError (Some 98)) else Returns ())"

text \<open>Behaviours of \<^verbatim>\<open>os.system\<close>: the command runs and exits with 0; the call raises.\<close>

definition system_ok :: "string \<Rightarrow> int outcome" where
  "system_ok c = Returns 0"

definition system_raises :: "string \<Rightarrow> int outcome" where
  "system_raises c = Raises (OtherError ''RuntimeError'')"

text \<open>
  The shell cannot run the command (no \<^verbatim>\<open>open\<close> program, as on Linux): \<^verbatim>\<open>os.system\<close>
  returns the wait status 32512, exit code 127, and does not raise.
\<close>

definition system_missing :: "string \<Rightarrow> int outcome" where
  "system_missing c = Returns 32512"

text \<open>
  Three systems for the whole program. In \<open>race_world\<close> port 8000 is free when the port
  finder probes it and taken when the server binds, and the user interrupts the server.
  In \<open>quiet_world\<close> every port is free, the user interrupts the server and \<^verbatim>\<open>os.system\<close>
  raises. In \<open>exhausted_world\<close> ports 8000 to 8100 are taken.
\<close>

definition race_world :: world where
  "race_world = \<lparr>finder_tcp = all_free, server_tcp = busy_8000, serve = interrupted,
                  os_system = system_ok\<rparr>"

definition quiet_world :: world where
  "quiet_world = \<lparr>finder_tcp = all_free, server_tcp = all_free, serve = interrupted,
                   os_system = system_raises\<rparr>"

definition exhausted_world :: world where
  "exhausted_world = \<lparr>finder_tcp = busy_window, server_tcp = all_free, serve = interrupted,
                       os_system = system_ok\<rparr>"

subsection \<open>Observations on traces\<close>

fun is_thread_start :: "event \<Rightarrow> bool" where
  "is_thread_start (ThreadStart _) = True"
| "is_thread_start _ = False"


subsection \<open>Port Finder: first fit\<close>

lemma loop_bound:
  "tcp_server port = Returns u \<Longrightarrow>
   find_available_port_loop tcp_server s port tr = Some (Inr port, tr @ [Bind port, Close port])"
  by (subst find_available_port_loop.simps) simp

lemma loop_in_use_step:
  "tcp_server port = Raises e \<Longrightarrow> address_in_use e \<Longrightarrow> port + 1 \<le> s + 100 \<Longrightarrow>
   find_available_port_loop tcp_server s port tr =
   find_available_port_loop tcp_server s (port + 1) (tr @ [Bind port])"
  by (subst find_available_port_loop.simps) simp

lemma loop_in_use_last:
  "tcp_server port = Raises e \<Longrightarrow> address_in_use e \<Longrightarrow> s + 100 < port + 1 \<Longrightarrow>
   find_available_port_loop tcp_server s port tr =
   Some (Inl (Exception ''Could not find available port''), tr @ [Bind port])"
  by (subst find_available_port_loop.simps) simp

lemma loop_other_error:
  "tcp_server port = Raises e \<Longrightarrow> \<not> address_in_use e \<Longrightarrow>
   find_available_port_loop tcp_server s port tr = Some (Inl e, tr @ [Bind port])"
  by (subst find_available_port_loop.simps) simp

text \<open>
  C1. For every starting port \<open>P\<close>: if binding \<open>P\<close> succeeds, \<open>find_available_port\<close>
  returns \<open>P\<close>, having probed \<open>P\<close> alone; if binding \<open>P\<close> fails with the address-in-use
  condition and binding \<open>P + 1\<close> succeeds, it returns \<open>P + 1\<close>, having probed \<open>P\<close> and then
  \<open>P + 1\<close>.
\<close>

theorem find_available_port_first_fit:
  "(tcp_server P = Returns () \<longrightarrow>
      find_available_port tcp_server P = Some (Inr P, [Bind P, Close P])) \<and>
   (tcp_server P = Raises e \<and> address_in_use e \<and> tcp_server (P + 1) = Returns () \<longrightarrow>
      find_available_port tcp_server P =
        Some (Inr (P + 1), [Bind P, Bind (P + 1), Close (P + 1)]))"
proof (intro conjI impI)
  assume "tcp_server P = Returns ()"
  then show "find_available_port tcp_server P = Some (Inr P, [Bind P, Close P])"
    by (simp add: find_available_port_def loop_bound)
next
  assume h: "tcp_server P = Raises e \<and> address_in_use e \<and> tcp_server (P + 1) = Returns ()"
  then have "find_available_port_loop tcp_server P P [] =
             find_available_port_loop tcp_server P (P + 1) ([] @ [Bind P])"
    by (intro loop_in_use_step[of tcp_server P e P]) simp_all
  also have "\<dots> = Some (Inr (P + 1), ([] @ [Bind P]) @ [Bind (P + 1), Close (P + 1)])"
    using h by (intro loop_bound) simp
  finally show "find_available_port tcp_server P =
                Some (Inr (P + 1), [Bind P, Bind (P + 1), Close (P + 1)])"
    by (simp add: find_available_port_def)
qed

theorem find_available_port_first_fit_witness:
  "busy_8000 8001 = Returns () \<and>
   find_available_port busy_8000 8001 = Some (Inr 8001, [Bind 8001, Close 8001]) \<and>
   busy_8000 8000 = Raises (OSError (Some 48)) \<and> address_in_use (OSError (Some 48)) \<and>
   find_available_port busy_8000 8000 = Some (Inr 8001, [Bind 8000, Bind 8001, Close 8001])"
  using find_available_port_first_fit [of busy_8000 8001]
        find_available_port_first_fit [of busy_8000 8000 "OSError (Some 48)"]
  by (simp add: busy_8000_def)

subsection \<open>Port Finder: termination, the probing window, the result range\<close>

text \<open>
  The distance from the candidate to the end of the window, \<open>s + 100 - port\<close>, shrinks with
  every iteration; the three lemmas below are inductions on it.
\<close>

lemma loop_returns:
  "\<exists>r. find_available_port_loop tcp_server s port tr = Some r"
proof (induction "nat (s + 100 - port)" arbitrary: port tr rule: less_induct)
  case less
  show ?case
  proof (cases "tcp_server port")
    case (Returns u)
    then show ?thesis by (simp add: loop_bound)
  next
    case (Raises e)
    show ?thesis
    proof (cases "address_in_use e")
      case False
      with Raises show ?thesis by (simp add: loop_other_error)
    next
      case True
      show ?thesis
      proof (cases "port + 1 \<le> s + 100")
        case False
        with Raises True show ?thesis by (simp add: loop_in_use_last)
      next
        case le: True
        have "nat (s + 100 - (port + 1)) < nat (s + 100 - port)"
          using le by simp
        from less[OF this] Raises True le show ?thesis
          by (simp add: loop_in_use_step)
      qed
    qed
  qed
qed

lemma loop_trace:
  "find_available_port_loop tcp_server s port tr = Some (r, tr') \<Longrightarrow> port \<le> s + 100 \<Longrightarrow>
   \<exists>p. port \<le> p \<and> p \<le> s + 100 \<and>
       tr' = tr @ map Bind [port..p] @ (case r of Inl _ \<Rightarrow> [] | Inr _ \<Rightarrow> [Close p]) \<and>
       (\<forall>q. r = Inr q \<longrightarrow> q = p)"
proof (induction "nat (s + 100 - port)" arbitrary: port tr rule: less_induct)
  case less
  show ?case
  proof (cases "tcp_server port")
    case (Returns u)
    with less.prems have "r = Inr port" "tr' = tr @ [Bind port, Close port]"
      by (simp_all add: loop_bound)
    with less.prems(2) show ?thesis
      by (intro exI[of _ port]) simp
  next
    case (Raises e)
    show ?thesis
    proof (cases "address_in_use e \<and> port + 1 \<le> s + 100")
      case False
      have "find_available_port_loop tcp_server s port tr =
              Some (Inl (if address_in_use e then Exception ''Could not find available port'' else e),
                    tr @ [Bind port])"
      proof (cases "address_in_use e")
        case False
        with Raises show ?thesis by (simp add: loop_other_error)
      next
        case in_use: True
        with False have "s + 100 < port + 1" by simp
        from loop_in_use_last[of tcp_server port e s tr, OF Raises in_use this] in_use
        show ?thesis by simp
      qed
      with less.prems(1) have "tr' = tr @ [Bind port]" "\<exists>x. r = Inl x"
        by auto
      with less.prems(2) show ?thesis
        by (intro exI[of _ port]) auto
    next
      case True
      then have lt: "nat (s + 100 - (port + 1)) < nat (s + 100 - port)" by simp
      from Raises True less.prems(1)
      have run: "find_available_port_loop tcp_server s (port + 1) (tr @ [Bind port]) = Some (r, tr')"
        by (simp add: loop_in_use_step)
      from less.hyps[OF lt run] True obtain p where
        p: "port + 1 \<le> p" "p \<le> s + 100"
           "tr' = (tr @ [Bind port]) @ map Bind [port + 1..p] @ (case r of Inl _ \<Rightarrow> [] | Inr _ \<Rightarrow> [Close p])"
           "\<forall>q. r = Inr q \<longrightarrow> q = p"
        by auto
      have "[port..p] = port # [port + 1..p]"
        using p(1) by (simp add: upto_rec1)
      with p show ?thesis
        by (intro exI[of _ p]) simp
    qed
  qed
qed

lemma loop_exhausted:
  "\<forall>q. port \<le> q \<and> q \<le> s + 100 \<longrightarrow> (\<exists>e. tcp_server q = Raises e \<and> address_in_use e) \<Longrightarrow>
   port \<le> s + 100 \<Longrightarrow>
   find_available_port_loop tcp_server s port tr =
     Some (Inl (Exception ''Could not find available port''), tr @ map Bind [port..s + 100])"
proof (induction "nat (s + 100 - port)" arbitrary: port tr rule: less_induct)
  case less
  from less.prems obtain e where e: "tcp_server port = Raises e" "address_in_use e"
    by auto
  show ?case
  proof (cases "port + 1 \<le> s + 100")
    case False
    with less.prems(2) have "port = s + 100" by simp
    with e show ?thesis by (simp add: loop_in_use_last)
  next
    case True
    then have lt: "nat (s + 100 - (port + 1)) < nat (s + 100 - port)" by simp
    have all: "\<forall>q. port + 1 \<le> q \<and> q \<le> s + 100 \<longrightarrow> (\<exists>e. tcp_server q = Raises e \<and> address_in_use e)"
      using less.prems(1) by auto
    have "[port..s + 100] = port # [port + 1..s + 100]"
      using True by (simp add: upto_rec1)
    with less.hyps[OF lt all True] e True show ?thesis
      by (simp add: loop_in_use_step)
  qed
qed

text \<open>
  C2. \<open>find_available_port\<close> returns or raises on every input: the loop, a partial
  function, has a result for every behaviour of the system and every starting port. If
  every port from \<open>s\<close> to \<open>s + 100\<close> fails with the address-in-use condition, it raises
  \<^verbatim>\<open>Exception("Could not find available port")\<close> after probing exactly these 101 ports,
  each once, in increasing order.
\<close>

theorem find_available_port_terminates:
  "(\<exists>r. find_available_port tcp_server s = Some r) \<and>
   ((\<forall>p\<in>{s..s + 100}. \<exists>e. tcp_server p = Raises e \<and> address_in_use e) \<longrightarrow>
      find_available_port tcp_server s =
        Some (Inl (Exception ''Could not find available port''), map Bind [s..s + 100]) \<and>
      length (map Bind [s..s + 100]) = 101)"
proof (intro conjI impI)
  show "\<exists>r. find_available_port tcp_server s = Some r"
    unfolding find_available_port_def by (rule loop_returns)
next
  assume "\<forall>p\<in>{s..s + 100}. \<exists>e. tcp_server p = Raises e \<and> address_in_use e"
  then have "\<forall>q. s \<le> q \<and> q \<le> s + 100 \<longrightarrow> (\<exists>e. tcp_server q = Raises e \<and> address_in_use e)"
    by simp
  from loop_exhausted[OF this, of "[]"]
  show "find_available_port tcp_server s =
        Some (Inl (Exception ''Could not find available port''), map Bind [s..s + 100])"
    by (simp add: find_available_port_def)
next
  show "length (map Bind [s..s + 100]) = 101" by simp
qed

theorem find_available_port_terminates_witness:
  "busy_window 8000 = Raises (OSError (Some 48)) \<and>
   busy_window 8100 = Raises (OSError (Some 48)) \<and>
   address_in_use (OSError (Some 48)) \<and>
   find_available_port busy_window 8000 =
     Some (Inl (Exception ''Could not find available port''), map Bind [8000..8000 + 100])"
  using find_available_port_terminates [of busy_window 8000]
  by (simp add: busy_window_def)

text \<open>
  C10. Whenever \<open>find_available_port\<close> started at \<open>s\<close> returns a port, the port lies in
  the closed interval from \<open>s\<close> to \<open>s + 100\<close>, and so does every port it probed. Started
  at the default 8000, every port it probes and every port it returns lies in the 16-bit
  range 0..65535, whether it returns or raises.
\<close>

theorem find_available_port_range:
  "(find_available_port tcp_server s = Some (Inr p, tr) \<longrightarrow>
      s \<le> p \<and> p \<le> s + 100 \<and> (\<forall>q. Bind q \<in> set tr \<longrightarrow> s \<le> q \<and> q \<le> s + 100)) \<and>
   (find_available_port tcp_server 8000 = Some (r, tr) \<longrightarrow>
      (\<forall>q. Bind q \<in> set tr \<longrightarrow> 0 \<le> q \<and> q \<le> 65535) \<and>
      (\<forall>q. r = Inr q \<longrightarrow> 0 \<le> q \<and> q \<le> 65535))"
proof (intro conjI impI)
  assume run: "find_available_port tcp_server s = Some (Inr p, tr)"
  then have "find_available_port_loop tcp_server s s [] = Some (Inr p, tr)"
    by (simp add: find_available_port_def)
  from loop_trace[OF this] obtain p' where
    p': "s \<le> p'" "p' \<le> s + 100" "tr = map Bind [s..p'] @ [Close p']" "p = p'"
    by auto
  then show "s \<le> p" "p \<le> s + 100" by simp_all
  from p' show "\<forall>q. Bind q \<in> set tr \<longrightarrow> s \<le> q \<and> q \<le> s + 100" by auto
next
  assume "find_available_port tcp_server 8000 = Some (r, tr)"
  then have "find_available_port_loop tcp_server 8000 8000 [] = Some (r, tr)"
    by (simp add: find_available_port_def)
  from loop_trace[OF this] obtain p' where
    p': "8000 \<le> p'" "p' \<le> 8100"
        "tr = map Bind [8000..p'] @ (case r of Inl _ \<Rightarrow> [] | Inr _ \<Rightarrow> [Close p'])"
        "\<forall>q. r = Inr q \<longrightarrow> q = p'"
    by auto
  from p' show "\<forall>q. Bind q \<in> set tr \<longrightarrow> 0 \<le> q \<and> q \<le> 65535"
    by (cases r) auto
  from p' show "\<forall>q. r = Inr q \<longrightarrow> 0 \<le> q \<and> q \<le> 65535" by auto
qed

lemma finder_busy_8000:
  "find_available_port busy_8000 8000 = Some (Inr 8001, [Bind 8000, Bind 8001, Close 8001])"
proof -
  have "find_available_port_loop busy_8000 8000 8000 [] =
        find_available_port_loop busy_8000 8000 (8000 + 1) ([] @ [Bind 8000])"
    by (rule loop_in_use_step[of _ _ "OSError (Some 48)"]) (simp_all add: busy_8000_def)
  also have "\<dots> = Some (Inr (8000 + 1), ([] @ [Bind 8000]) @ [Bind (8000 + 1), Close (8000 + 1)])"
    by (rule loop_bound[of _ _ "()"]) (simp add: busy_8000_def)
  finally show ?thesis by (simp add: find_available_port_def)
qed

theorem find_available_port_range_witness:
  "find_available_port busy_8000 8000 = Some (Inr 8001, [Bind 8000, Bind 8001, Close 8001]) \<and>
   (8000::int) \<le> 8001 \<and> (8001::int) \<le> 8000 + 100 \<and>
   (0::int) \<le> 8001 \<and> (8001::int) \<le> 65535"
  using find_available_port_range
          [of busy_8000 8000 8001 "[Bind 8000, Bind 8001, Close 8001]" "Inr 8001"]
        finder_busy_8000
  by simp

subsection \<open>Port Finder: skipping ports in use\<close>

lemma loop_skip:
  "\<forall>q. port \<le> q \<and> q < port + int n \<longrightarrow> (\<exists>e. tcp_server q = Raises e \<and> address_in_use e) \<Longrightarrow>
   port + int n \<le> s + 100 \<Longrightarrow>
   find_available_port_loop tcp_server s port tr =
   find_available_port_loop tcp_server s (port + int n) (tr @ map Bind [port..port + int n - 1])"
proof (induction n arbitrary: port tr)
  case 0
  then show ?case by simp
next
  case (Suc n)
  from Suc.prems(1) obtain e where e: "tcp_server port = Raises e" "address_in_use e"
    by force
  have step: "find_available_port_loop tcp_server s port tr =
              find_available_port_loop tcp_server s (port + 1) (tr @ [Bind port])"
    using e Suc.prems(2) by (intro loop_in_use_step[of tcp_server port e]) simp_all
  have rest: "\<forall>q. port + 1 \<le> q \<and> q < port + 1 + int n \<longrightarrow>
                (\<exists>e. tcp_server q = Raises e \<and> address_in_use e)"
    using Suc.prems(1) by simp
  have "[port..port + int (Suc n) - 1] = port # [port + 1..port + 1 + int n - 1]"
    by (simp add: upto_rec1)
  with Suc.IH[OF rest, of "tr @ [Bind port]"] Suc.prems(2) step show ?case
    by (simp add: add.assoc)
qed


subsection \<open>Server: one step of \<open>start_server\<close>\<close>

lemma server_in_use_step:
  "tcp_server port = Raises e \<Longrightarrow> address_in_use e \<Longrightarrow>
   start_server tcp_server serve_forever port tr =
   start_server tcp_server serve_forever (port + 1) (tr @ [Bind port, Print (in_use_msg port)])"
  by (subst start_server.simps) simp

lemma server_other_error:
  "tcp_server port = Raises e \<Longrightarrow> \<not> address_in_use e \<Longrightarrow>
   start_server tcp_server serve_forever port tr = Some (Inl e, tr @ [Bind port])"
  by (subst start_server.simps) simp

lemma server_serve_returns:
  "tcp_server port = Returns u \<Longrightarrow> serve_forever port = Returns v \<Longrightarrow>
   start_server tcp_server serve_forever port tr =
   Some (Inr port, tr @ [Bind port, Print (running_msg port),
                         Print ''Press Ctrl+C to stop the server'', ServeForever port, Close port])"
  by (subst start_server.simps) simp

lemma server_serve_raises:
  "tcp_server port = Returns u \<Longrightarrow> serve_forever port = Raises e \<Longrightarrow> \<not> address_in_use e \<Longrightarrow>
   start_server tcp_server serve_forever port tr =
   Some (Inl e, tr @ [Bind port, Print (running_msg port),
                      Print ''Press Ctrl+C to stop the server'', ServeForever port, Close port])"
  by (subst start_server.simps) simp


lemma server_retries:
  "\<forall>q. port \<le> q \<and> q < port + int n \<longrightarrow> (\<exists>e. tcp_server q = Raises e \<and> address_in_use e) \<Longrightarrow>
   start_server tcp_server serve_forever port tr =
   start_server tcp_server serve_forever (port + int n)
     (tr @ concat (map (\<lambda>q. [Bind q, Print (in_use_msg q)]) [port..port + int n - 1]))"
proof (induction n arbitrary: port tr)
  case 0
  then show ?case by simp
next
  case (Suc n)
  from Suc.prems obtain e where e: "tcp_server port = Raises e" "address_in_use e"
    by force
  have rest: "\<forall>q. port + 1 \<le> q \<and> q < port + 1 + int n \<longrightarrow>
                (\<exists>e. tcp_server q = Raises e \<and> address_in_use e)"
    using Suc.prems by simp
  have "[port..port + int (Suc n) - 1] = port # [port + 1..port + 1 + int n - 1]"
    by (simp add: upto_rec1)
  with Suc.IH[OF rest, of "tr @ [Bind port, Print (in_use_msg port)]"]
       server_in_use_step[of tcp_server port e serve_forever tr, OF e]
  show ?case
    by (simp add: add.assoc)
qed

lemma server_trace:
  assumes "start_server tcp_server serve_forever port tr = Some y"
  shows "\<exists>rest. snd y = tr @ Bind port # rest \<and> filter is_thread_start rest = []"
proof (rule start_server.raw_induct
         [where P = "\<lambda>tcp_server serve_forever port tr y.
                       \<exists>rest. snd y = tr @ Bind port # rest \<and> filter is_thread_start rest = []",
          OF _ assms],
       goal_cases)
  case (1 start_server tcp_server serve_forever port tr y)
  note IH = "1"(1) and hyps = "1"(2)
  show ?case
  proof (cases "tcp_server port")
    case (Returns u)
    show ?thesis
    proof (cases "serve_forever port")
      case sr: (Returns v)
      with Returns hyps show ?thesis by auto
    next
      case (Raises e)
      show ?thesis
      proof (cases "address_in_use e")
        case False
        with Returns Raises hyps show ?thesis by auto
      next
        case True
        with Returns Raises hyps
        have "start_server tcp_server serve_forever (port + 1)
                (tr @ [Bind port, Print (running_msg port), Print ''Press Ctrl+C to stop the server'',
                       ServeForever port, Close port, Print (in_use_msg port)]) = Some y"
          by simp
        from IH[OF this] show ?thesis by auto
      qed
    qed
  next
    case (Raises e)
    show ?thesis
    proof (cases "address_in_use e")
      case False
      with Raises hyps show ?thesis by auto
    next
      case True
      with Raises hyps
      have "start_server tcp_server serve_forever (port + 1)
              (tr @ [Bind port, Print (in_use_msg port)]) = Some y"
        by simp
      from IH[OF this] show ?thesis by auto
    qed
  qed
qed

subsection \<open>Server: what a run of \<open>start_server\<close> contains\<close>

lemma server_never_raises_in_use:
  assumes "start_server tcp_server serve_forever port tr = Some y"
  shows "\<forall>e. fst y = Inl e \<longrightarrow> \<not> address_in_use e"
proof (rule start_server.raw_induct
         [where P = "\<lambda>tcp_server serve_forever port tr y.
                       \<forall>e. fst y = Inl e \<longrightarrow> \<not> address_in_use e",
          OF _ assms],
       goal_cases)
  case (1 start_server tcp_server serve_forever port tr y)
  note IH = "1"(1) and hyps = "1"(2)
  show ?case
  proof (cases "tcp_server port")
    case (Returns u)
    show ?thesis
    proof (cases "serve_forever port")
      case sr: (Returns v)
      with Returns hyps show ?thesis by auto
    next
      case (Raises e)
      show ?thesis
      proof (cases "address_in_use e")
        case False
        with Returns Raises hyps show ?thesis by auto
      next
        case True
        with Returns Raises hyps
        have "start_server tcp_server serve_forever (port + 1)
                (tr @ [Bind port, Print (running_msg port), Print ''Press Ctrl+C to stop the server'',
                       ServeForever port, Close port, Print (in_use_msg port)]) = Some y"
          by simp
        from IH[OF this] show ?thesis .
      qed
    qed
  next
    case (Raises e)
    show ?thesis
    proof (cases "address_in_use e")
      case False
      with Raises hyps show ?thesis by auto
    next
      case True
      with Raises hyps
      have "start_server tcp_server serve_forever (port + 1)
              (tr @ [Bind port, Print (in_use_msg port)]) = Some y"
        by simp
      from IH[OF this] show ?thesis .
    qed
  qed
qed


lemma server_retry_then_serve_raises:
  assumes "tcp_server p = Raises e" "address_in_use e"
    and "tcp_server (p + 1) = Returns ()"
    and "serve_forever (p + 1) = Raises e'" "\<not> address_in_use e'"
  shows "start_server tcp_server serve_forever p tr =
         Some (Inl e', tr @ [Bind p, Print (in_use_msg p), Bind (p + 1), Print (running_msg (p + 1)),
                             Print ''Press Ctrl+C to stop the server'', ServeForever (p + 1),
                             Close (p + 1)])"
proof -
  have "start_server tcp_server serve_forever p tr =
        start_server tcp_server serve_forever (p + 1) (tr @ [Bind p, Print (in_use_msg p)])"
    using assms(1,2) by (rule server_in_use_step)
  also have "\<dots> = Some (Inl e', (tr @ [Bind p, Print (in_use_msg p)]) @
                 [Bind (p + 1), Print (running_msg (p + 1)),
                  Print ''Press Ctrl+C to stop the server'', ServeForever (p + 1), Close (p + 1)])"
    using assms(3,4,5)
    by (rule server_serve_raises[of tcp_server "p + 1" "()" serve_forever e'])
  finally show ?thesis by simp
qed

lemma server_retry_then_serve_returns:
  assumes "tcp_server p = Raises e" "address_in_use e"
    and "tcp_server (p + 1) = Returns ()"
    and "serve_forever (p + 1) = Returns ()"
  shows "start_server tcp_server serve_forever p tr =
         Some (Inr (p + 1),
               tr @ [Bind p, Print (in_use_msg p), Bind (p + 1), Print (running_msg (p + 1)),
                     Print ''Press Ctrl+C to stop the server'', ServeForever (p + 1),
                     Close (p + 1)])"
proof -
  have "start_server tcp_server serve_forever p tr =
        start_server tcp_server serve_forever (p + 1) (tr @ [Bind p, Print (in_use_msg p)])"
    using assms(1,2) by (rule server_in_use_step)
  also have "\<dots> = Some (Inr (p + 1), (tr @ [Bind p, Print (in_use_msg p)]) @
                 [Bind (p + 1), Print (running_msg (p + 1)),
                  Print ''Press Ctrl+C to stop the server'', ServeForever (p + 1), Close (p + 1)])"
    using assms(3,4)
    by (rule server_serve_returns[of tcp_server "p + 1" "()" serve_forever "()"])
  finally show ?thesis by simp
qed

lemma server_past_window:
  assumes "\<forall>q\<in>{p..p + 100}. \<exists>e. tcp_server q = Raises e \<and> address_in_use e"
    and "tcp_server (p + 101) = Returns ()"
    and "serve_forever (p + 101) = Raises e'" "\<not> address_in_use e'"
  shows "start_server tcp_server serve_forever p tr =
         Some (Inl e',
               tr @ concat (map (\<lambda>q. [Bind q, Print (in_use_msg q)]) [p..p + 100]) @
               [Bind (p + 101), Print (running_msg (p + 101)),
                Print ''Press Ctrl+C to stop the server'', ServeForever (p + 101),
                Close (p + 101)])"
proof -
  from assms(1)
  have "\<forall>q. p \<le> q \<and> q < p + int 101 \<longrightarrow> (\<exists>e. tcp_server q = Raises e \<and> address_in_use e)"
    by simp
  from server_retries[OF this, of serve_forever tr]
  have "start_server tcp_server serve_forever p tr =
        start_server tcp_server serve_forever (p + int 101)
          (tr @ concat (map (\<lambda>q. [Bind q, Print (in_use_msg q)]) [p..p + int 101 - 1]))" .
  moreover have "p + int 101 - 1 = p + 100" "p + int 101 = p + 101"
    by simp_all
  ultimately have "start_server tcp_server serve_forever p tr =
        start_server tcp_server serve_forever (p + 101)
          (tr @ concat (map (\<lambda>q. [Bind q, Print (in_use_msg q)]) [p..p + 100]))"
    by (simp only:)
  also have "\<dots> = Some (Inl e',
                 (tr @ concat (map (\<lambda>q. [Bind q, Print (in_use_msg q)]) [p..p + 100])) @
                 [Bind (p + 101), Print (running_msg (p + 101)),
                  Print ''Press Ctrl+C to stop the server'', ServeForever (p + 101),
                  Close (p + 101)])"
    using assms(2,3,4)
    by (rule server_serve_raises[of tcp_server "p + 101" "()" serve_forever e'])
  finally show ?thesis by simp
qed

subsection \<open>Server: retry on the next port\<close>

lemma str_8000: "str 8000 = ''8000''"
  by (simp add: str_def str_nat.simps digit_def)

lemma str_8001: "str 8001 = ''8001''"
  by (simp add: str_def str_nat.simps digit_def)

lemma str_8101: "str 8101 = ''8101''"
  by (simp add: str_def str_nat.simps digit_def)

lemma url_8000: "url_of 8000 = ''http://localhost:8000/''"
  by (simp add: url_of_def str_8000)

lemma url_8001: "url_of 8001 = ''http://localhost:8001/''"
  by (simp add: url_of_def str_8001)

text \<open>
  C5. For every port \<open>p\<close>: if the server's bind at \<open>p\<close> fails with the address-in-use
  condition, \<open>start_server\<close> does not raise that failure: it prints the retry line and
  goes on as \<open>start_server\<close> on \<open>p + 1\<close>. Every run that ends has the bind on \<open>p + 1\<close>
  right after the retry line, and no run of \<open>start_server\<close> ever ends with an
  address-in-use error. If the bind on \<open>p + 1\<close> succeeds, the server announces
  \<open>p + 1\<close> and serves there, and the run ends as \<^verbatim>\<open>serve_forever\<close> ends. The retry is the
  server's own: it looks only at the server's bind attempts and has no window. Where
  ports \<open>p\<close> to \<open>p + 100\<close> are all in use and \<open>p + 101\<close> is free, the port finder started
  at \<open>p\<close> gives up with the exhaustion error while \<open>start_server\<close> retries 101 times and
  serves on \<open>p + 101\<close>.
\<close>

theorem start_server_retries_next_port:
  "(tcp_server p = Raises e \<and> address_in_use e \<longrightarrow>
      start_server tcp_server serve_forever p tr =
      start_server tcp_server serve_forever (p + 1) (tr @ [Bind p, Print (in_use_msg p)])) \<and>
   (tcp_server p = Raises e \<and> address_in_use e \<and>
    start_server tcp_server serve_forever p tr = Some (res, tr') \<longrightarrow>
      (\<exists>rest. tr' = tr @ Bind p # Print (in_use_msg p) # Bind (p + 1) # rest) \<and> res \<noteq> Inl e) \<and>
   (start_server tcp_server serve_forever p tr = Some (Inl e'', tr') \<longrightarrow> \<not> address_in_use e'') \<and>
   (tcp_server p = Raises e \<and> address_in_use e \<and> tcp_server (p + 1) = Returns () \<and>
    serve_forever (p + 1) = Raises e' \<and> \<not> address_in_use e' \<longrightarrow>
      start_server tcp_server serve_forever p tr =
        Some (Inl e', tr @ [Bind p, Print (in_use_msg p), Bind (p + 1), Print (running_msg (p + 1)),
                            Print ''Press Ctrl+C to stop the server'', ServeForever (p + 1),
                            Close (p + 1)])) \<and>
   (tcp_server p = Raises e \<and> address_in_use e \<and> tcp_server (p + 1) = Returns () \<and>
    serve_forever (p + 1) = Returns () \<longrightarrow>
      start_server tcp_server serve_forever p tr =
        Some (Inr (p + 1),
              tr @ [Bind p, Print (in_use_msg p), Bind (p + 1), Print (running_msg (p + 1)),
                    Print ''Press Ctrl+C to stop the server'', ServeForever (p + 1),
                    Close (p + 1)])) \<and>
   ((\<forall>q\<in>{p..p + 100}. \<exists>e. tcp_server q = Raises e \<and> address_in_use e) \<and>
    tcp_server (p + 101) = Returns () \<and>
    serve_forever (p + 101) = Raises e' \<and> \<not> address_in_use e' \<longrightarrow>
      find_available_port tcp_server p =
        Some (Inl (Exception ''Could not find available port''), map Bind [p..p + 100]) \<and>
      start_server tcp_server serve_forever p tr =
        Some (Inl e',
              tr @ concat (map (\<lambda>q. [Bind q, Print (in_use_msg q)]) [p..p + 100]) @
              [Bind (p + 101), Print (running_msg (p + 101)),
               Print ''Press Ctrl+C to stop the server'', ServeForever (p + 101),
               Close (p + 101)]))"
proof -
  have step: "tcp_server p = Raises e \<and> address_in_use e \<longrightarrow>
      start_server tcp_server serve_forever p tr =
      start_server tcp_server serve_forever (p + 1) (tr @ [Bind p, Print (in_use_msg p)])"
    by (auto intro: server_in_use_step)
  have never: "start_server tcp_server serve_forever p tr = Some (Inl e'', tr') \<longrightarrow>
               \<not> address_in_use e''"
    using server_never_raises_in_use[of tcp_server serve_forever p tr "(Inl e'', tr')"]
    by simp
  have binds_next: "tcp_server p = Raises e \<and> address_in_use e \<and>
    start_server tcp_server serve_forever p tr = Some (res, tr') \<longrightarrow>
      (\<exists>rest. tr' = tr @ Bind p # Print (in_use_msg p) # Bind (p + 1) # rest) \<and> res \<noteq> Inl e"
  proof
    assume h: "tcp_server p = Raises e \<and> address_in_use e \<and>
      start_server tcp_server serve_forever p tr = Some (res, tr')"
    then have e: "tcp_server p = Raises e" "address_in_use e"
      and run: "start_server tcp_server serve_forever p tr = Some (res, tr')"
      by simp_all
    from server_in_use_step[of tcp_server p e serve_forever tr, OF e] run
    have "start_server tcp_server serve_forever (p + 1) (tr @ [Bind p, Print (in_use_msg p)]) =
          Some (res, tr')"
      by simp
    from server_trace[OF this]
    have a: "\<exists>rest. tr' = tr @ Bind p # Print (in_use_msg p) # Bind (p + 1) # rest"
      by auto
    from server_never_raises_in_use[OF run] e(2) have b: "res \<noteq> Inl e"
      by auto
    from a b
    show "(\<exists>rest. tr' = tr @ Bind p # Print (in_use_msg p) # Bind (p + 1) # rest) \<and> res \<noteq> Inl e"
      by simp
  qed
  have raises: "tcp_server p = Raises e \<and> address_in_use e \<and> tcp_server (p + 1) = Returns () \<and>
    serve_forever (p + 1) = Raises e' \<and> \<not> address_in_use e' \<longrightarrow>
      start_server tcp_server serve_forever p tr =
        Some (Inl e', tr @ [Bind p, Print (in_use_msg p), Bind (p + 1), Print (running_msg (p + 1)),
                            Print ''Press Ctrl+C to stop the server'', ServeForever (p + 1),
                            Close (p + 1)])"
    by (auto intro: server_retry_then_serve_raises)
  have returns: "tcp_server p = Raises e \<and> address_in_use e \<and> tcp_server (p + 1) = Returns () \<and>
    serve_forever (p + 1) = Returns () \<longrightarrow>
      start_server tcp_server serve_forever p tr =
        Some (Inr (p + 1),
              tr @ [Bind p, Print (in_use_msg p), Bind (p + 1), Print (running_msg (p + 1)),
                    Print ''Press Ctrl+C to stop the server'', ServeForever (p + 1),
                    Close (p + 1)])"
    by (auto intro: server_retry_then_serve_returns)
  have window: "(\<forall>q\<in>{p..p + 100}. \<exists>e. tcp_server q = Raises e \<and> address_in_use e) \<and>
    tcp_server (p + 101) = Returns () \<and>
    serve_forever (p + 101) = Raises e' \<and> \<not> address_in_use e' \<longrightarrow>
      find_available_port tcp_server p =
        Some (Inl (Exception ''Could not find available port''), map Bind [p..p + 100]) \<and>
      start_server tcp_server serve_forever p tr =
        Some (Inl e',
              tr @ concat (map (\<lambda>q. [Bind q, Print (in_use_msg q)]) [p..p + 100]) @
              [Bind (p + 101), Print (running_msg (p + 101)),
               Print ''Press Ctrl+C to stop the server'', ServeForever (p + 101),
               Close (p + 101)])"
  proof (intro impI conjI)
    assume h: "(\<forall>q\<in>{p..p + 100}. \<exists>e. tcp_server q = Raises e \<and> address_in_use e) \<and>
      tcp_server (p + 101) = Returns () \<and>
      serve_forever (p + 101) = Raises e' \<and> \<not> address_in_use e'"
    then have busy: "\<forall>q\<in>{p..p + 100}. \<exists>e. tcp_server q = Raises e \<and> address_in_use e"
      and b: "tcp_server (p + 101) = Returns ()"
      and s: "serve_forever (p + 101) = Raises e'" "\<not> address_in_use e'"
      by simp_all
    from busy
    have "\<forall>q. p \<le> q \<and> q \<le> p + 100 \<longrightarrow> (\<exists>e. tcp_server q = Raises e \<and> address_in_use e)"
      by simp
    from loop_exhausted[OF this, of "[]"]
    show "find_available_port tcp_server p =
          Some (Inl (Exception ''Could not find available port''), map Bind [p..p + 100])"
      by (simp add: find_available_port_def)
    from server_past_window[of p tcp_server serve_forever "e'" tr, OF busy b s]
    show "start_server tcp_server serve_forever p tr =
        Some (Inl e',
              tr @ concat (map (\<lambda>q. [Bind q, Print (in_use_msg q)]) [p..p + 100]) @
              [Bind (p + 101), Print (running_msg (p + 101)),
               Print ''Press Ctrl+C to stop the server'', ServeForever (p + 101),
               Close (p + 101)])" .
  qed
  show ?thesis
    by (intro conjI step binds_next never raises returns window)
qed

theorem start_server_retries_next_port_witness:
  "busy_8000 8000 = Raises (OSError (Some 48)) \<and> address_in_use (OSError (Some 48)) \<and>
   busy_8000 8001 = Returns () \<and> interrupted 8001 = Raises KeyboardInterrupt \<and>
   \<not> address_in_use KeyboardInterrupt \<and>
   start_server busy_8000 interrupted 8000 [] =
     Some (Inl KeyboardInterrupt,
           [Bind 8000, Print ''Port 8000 is already in use, trying port 8001'',
            Bind 8001, Print ''Server running at http://localhost:8001/'',
            Print ''Press Ctrl+C to stop the server'', ServeForever 8001, Close 8001]) \<and>
   busy_window 8100 = Raises (OSError (Some 48)) \<and> busy_window 8101 = Returns () \<and>
   find_available_port busy_window 8000 =
     Some (Inl (Exception ''Could not find available port''), map Bind [8000..8100]) \<and>
   start_server busy_window interrupted 8000 [] =
     Some (Inl KeyboardInterrupt,
           concat (map (\<lambda>q. [Bind q, Print (in_use_msg q)]) [8000..8100]) @
           [Bind 8101, Print ''Server running at http://localhost:8101/'',
            Print ''Press Ctrl+C to stop the server'', ServeForever 8101, Close 8101])"
proof -
  have a: "busy_8000 8000 = Raises (OSError (Some 48)) \<and> address_in_use (OSError (Some 48)) \<and>
           busy_8000 (8000 + 1) = Returns () \<and> interrupted (8000 + 1) = Raises KeyboardInterrupt \<and>
           \<not> address_in_use KeyboardInterrupt"
    by (simp add: busy_8000_def interrupted_def)
  have b: "(\<forall>q\<in>{8000..8000 + 100}. \<exists>e. busy_window q = Raises e \<and> address_in_use e) \<and>
           busy_window (8000 + 101) = Returns () \<and>
           interrupted (8000 + 101) = Raises KeyboardInterrupt \<and>
           \<not> address_in_use KeyboardInterrupt"
    by (simp add: busy_window_def interrupted_def)
  have c: "busy_window 8100 = Raises (OSError (Some 48)) \<and> busy_window 8101 = Returns ()"
    by (simp add: busy_window_def)
  have n: "(8000::int) + 100 = 8100" "(8000::int) + 101 = 8101" "(8000::int) + 1 = 8001"
    by simp_all
  note one = start_server_retries_next_port
      [where tcp_server = busy_8000 and p = 8000 and e = "OSError (Some 48)"
         and serve_forever = interrupted and e' = KeyboardInterrupt and tr = "[]",
       THEN conjunct2, THEN conjunct2, THEN conjunct2, THEN conjunct1, THEN mp, OF a]
  note win = start_server_retries_next_port
      [where tcp_server = busy_window and p = 8000
         and serve_forever = interrupted and e' = KeyboardInterrupt and tr = "[]",
       THEN conjunct2, THEN conjunct2, THEN conjunct2, THEN conjunct2, THEN conjunct2,
       THEN mp, OF b]
  have one': "start_server busy_8000 interrupted 8000 [] =
     Some (Inl KeyboardInterrupt,
           [Bind 8000, Print ''Port 8000 is already in use, trying port 8001'',
            Bind 8001, Print ''Server running at http://localhost:8001/'',
            Print ''Press Ctrl+C to stop the server'', ServeForever 8001, Close 8001])"
    using one by (simp add: in_use_msg_def running_msg_def str_8000 str_8001 url_8001)
  have win': "find_available_port busy_window 8000 =
     Some (Inl (Exception ''Could not find available port''), map Bind [8000..8100]) \<and>
     start_server busy_window interrupted 8000 [] =
     Some (Inl KeyboardInterrupt,
           concat (map (\<lambda>q. [Bind q, Print (in_use_msg q)]) [8000..8100]) @
           [Bind 8101, Print ''Server running at http://localhost:8101/'',
            Print ''Press Ctrl+C to stop the server'', ServeForever 8101, Close 8101])"
    using win
    by (simp only: n append_Nil running_msg_def url_of_def str_8101) simp
  from a c one' win' show ?thesis
    by (simp only: n) blast
qed

subsection \<open>Errors other than address-in-use\<close>

text \<open>
  C6. A binding failure whose condition is not address-in-use is propagated unchanged by
  the port finder and by the server, at whichever candidate it occurs: after \<open>n\<close> ports in
  use, the failure \<open>e\<close> at port \<open>s + n\<close> is what \<open>find_available_port\<close> raises (for \<open>n\<close>
  inside its window of 100 increments) and what \<open>start_server\<close> raises, and the failing
  bind is the last event: no further port is tried.
\<close>

theorem other_errors_propagate:
  "\<not> address_in_use e \<and> tcp_server (s + int n) = Raises e \<and>
   (\<forall>q. s \<le> q \<and> q < s + int n \<longrightarrow> (\<exists>e'. tcp_server q = Raises e' \<and> address_in_use e')) \<longrightarrow>
     (n \<le> 100 \<longrightarrow> find_available_port tcp_server s = Some (Inl e, map Bind [s..s + int n])) \<and>
     start_server tcp_server serve_forever s tr =
       Some (Inl e, tr @ concat (map (\<lambda>q. [Bind q, Print (in_use_msg q)]) [s..s + int n - 1])
                       @ [Bind (s + int n)])"
proof (intro impI conjI)
  assume h: "\<not> address_in_use e \<and> tcp_server (s + int n) = Raises e \<and>
   (\<forall>q. s \<le> q \<and> q < s + int n \<longrightarrow> (\<exists>e'. tcp_server q = Raises e' \<and> address_in_use e'))"
  then have busy: "\<forall>q. s \<le> q \<and> q < s + int n \<longrightarrow> (\<exists>e'. tcp_server q = Raises e' \<and> address_in_use e')"
    and e: "tcp_server (s + int n) = Raises e" "\<not> address_in_use e"
    by simp_all
  show "start_server tcp_server serve_forever s tr =
       Some (Inl e, tr @ concat (map (\<lambda>q. [Bind q, Print (in_use_msg q)]) [s..s + int n - 1])
                       @ [Bind (s + int n)])"
    using server_retries[OF busy, of serve_forever tr]
          server_other_error[of tcp_server "s + int n" e serve_forever, OF e]
    by simp
  assume n: "n \<le> 100"
  have "[s..s + int n] = [s..s + int n - 1] @ [s + int n]"
    by (simp add: upto_rec2)
  then show "find_available_port tcp_server s = Some (Inl e, map Bind [s..s + int n])"
    using loop_skip[OF busy, of s "[]"] n
          loop_other_error[of tcp_server "s + int n" e s, OF e]
    by (simp add: find_available_port_def)
qed

theorem other_errors_propagate_witness:
  "\<not> address_in_use (OSError (Some 13)) \<and>
   busy_then_denied (8000 + int 1) = Raises (OSError (Some 13)) \<and>
   find_available_port busy_then_denied 8000 =
     Some (Inl (OSError (Some 13)), [Bind 8000, Bind 8001]) \<and>
   start_server busy_then_denied interrupted 8000 [] =
     Some (Inl (OSError (Some 13)),
           [Bind 8000, Print ''Port 8000 is already in use, trying port 8001'', Bind 8001])"
  using other_errors_propagate [of "OSError (Some 13)" busy_then_denied 8000 1 interrupted "[]"]
  by (simp add: busy_then_denied_def in_use_msg_def str_8000 str_8001)

text \<open>
  C9. The address-in-use condition is exactly an \<open>OSError\<close> whose \<^verbatim>\<open>errno\<close> is 48. An
  \<open>OSError\<close> with any other \<^verbatim>\<open>errno\<close> (or none) at any candidate ends the port finder's
  loop and \<open>start_server\<close> with that same error, the failing bind being the last event; in
  particular the code 98, which Linux uses for address-in-use, is raised to the caller and
  port \<open>p + 1\<close> is not tried.
\<close>

theorem only_errno_48_is_address_in_use:
  "(address_in_use e \<longleftrightarrow> e = OSError (Some 48)) \<and>
   (en \<noteq> Some 48 \<and> tcp_server port = Raises (OSError en) \<longrightarrow>
      find_available_port_loop tcp_server s port tr = Some (Inl (OSError en), tr @ [Bind port]) \<and>
      start_server tcp_server serve_forever port tr = Some (Inl (OSError en), tr @ [Bind port])) \<and>
   (tcp_server port = Raises (OSError (Some 98)) \<longrightarrow>
      find_available_port tcp_server port = Some (Inl (OSError (Some 98)), [Bind port]) \<and>
      start_server tcp_server serve_forever port tr =
        Some (Inl (OSError (Some 98)), tr @ [Bind port]))"
proof (intro conjI impI)
  show "address_in_use e \<longleftrightarrow> e = OSError (Some 48)"
    by (cases e) simp_all
next
  assume h: "en \<noteq> Some 48 \<and> tcp_server port = Raises (OSError en)"
  then have e: "tcp_server port = Raises (OSError en)" "\<not> address_in_use (OSError en)"
    by simp_all
  from e show "find_available_port_loop tcp_server s port tr =
               Some (Inl (OSError en), tr @ [Bind port])"
    by (rule loop_other_error)
  from e show "start_server tcp_server serve_forever port tr =
               Some (Inl (OSError en), tr @ [Bind port])"
    by (rule server_other_error)
next
  assume e: "tcp_server port = Raises (OSError (Some 98))"
  have n: "\<not> address_in_use (OSError (Some 98))" by simp
  from loop_other_error[of tcp_server port "OSError (Some 98)" port "[]", OF e n]
  show "find_available_port tcp_server port = Some (Inl (OSError (Some 98)), [Bind port])"
    by (simp add: find_available_port_def)
  from e n show "start_server tcp_server serve_forever port tr =
        Some (Inl (OSError (Some 98)), tr @ [Bind port])"
    by (rule server_other_error)
qed

theorem only_errno_48_is_address_in_use_witness:
  "linux_busy_8000 8000 = Raises (OSError (Some 98)) \<and> Some (98::int) \<noteq> Some 48 \<and>
   find_available_port_loop linux_busy_8000 8000 8000 [] =
     Some (Inl (OSError (Some 98)), [Bind 8000]) \<and>
   find_available_port linux_busy_8000 8000 = Some (Inl (OSError (Some 98)), [Bind 8000]) \<and>
   start_server linux_busy_8000 interrupted 8000 [] =
     Some (Inl (OSError (Some 98)), [Bind 8000])"
  using only_errno_48_is_address_in_use
          [of "OSError (Some 98)" "Some 98" linux_busy_8000 8000 8000 "[]" interrupted]
  by (simp add: linux_busy_8000_def)

subsection \<open>Launcher: the two paths at port 8000\<close>

lemma safari_ok_8000:
  "open_in_safari system_ok 8000 =
     [Sleep, OsSystem (''open -a Safari '' @ [CHR 0x22] @ ''http://localhost:8000/'' @ [CHR 0x22]),
      Print ''Opening http://localhost:8000/ in Safari...'']"
  by (simp add: open_in_safari_def system_ok_def url_8000 safari_cmd_def safari_msg_def)

lemma safari_raises_8000:
  "open_in_safari system_raises 8000 =
     [Sleep, OsSystem (''open -a Safari '' @ [CHR 0x22] @ ''http://localhost:8000/'' @ [CHR 0x22]),
      WebbrowserOpen ''http://localhost:8000/'',
      Print ''Opening http://localhost:8000/ in default browser...'']"
  by (simp add: open_in_safari_def system_raises_def url_8000 safari_cmd_def default_msg_def)

subsection \<open>The main block: shape of a run\<close>


lemma finder_trace:
  assumes "find_available_port tcp_server s = Some (Inr p, ftr)"
  shows "s \<le> p \<and> p \<le> s + 100 \<and> ftr = map Bind [s..p] @ [Close p]"
proof -
  from assms have "find_available_port_loop tcp_server s s [] = Some (Inr p, ftr)"
    by (simp add: find_available_port_def)
  from loop_trace[OF this] show ?thesis by auto
qed


lemma main_finder_raises:
  "find_available_port (finder_tcp w) 8000 = Some (Inl e, ftr) \<Longrightarrow>
   main w = Some \<lparr>exit_by = Uncaught e, main_thread = ftr, safari_thread = None\<rparr>"
  by (simp add: main_def)

lemma main_server:
  "find_available_port (finder_tcp w) 8000 = Some (Inr p, ftr) \<Longrightarrow>
   start_server (server_tcp w) (serve w) p (ftr @ [ThreadStart p]) = Some (sres, tr) \<Longrightarrow>
   main w = Some \<lparr>exit_by = (case sres of Inr _ \<Rightarrow> Finished
                              | Inl e \<Rightarrow> if e = KeyboardInterrupt then SysExit 0 else Uncaught e),
                  main_thread = tr @ (if sres = Inl KeyboardInterrupt
                                      then [Print (CHR 0x0A # ''Server stopped.'')] else []),
                  safari_thread = Some (open_in_safari (os_system w) p)\<rparr>"
  by (cases sres) (simp_all add: main_def)

lemma main_server_runs:
  "main w = Some r \<Longrightarrow> find_available_port (finder_tcp w) 8000 = Some (Inr p, ftr) \<Longrightarrow>
   \<exists>sres tr. start_server (server_tcp w) (serve w) p (ftr @ [ThreadStart p]) = Some (sres, tr)"
  by (cases "start_server (server_tcp w) (serve w) p (ftr @ [ThreadStart p])")
     (auto simp: main_def)

lemma main_thread_shape:
  assumes "main w = Some r"
    and "find_available_port (finder_tcp w) 8000 = Some (Inr port, ftr)"
  shows "\<exists>sres tr rest.
           start_server (server_tcp w) (serve w) port (ftr @ [ThreadStart port]) = Some (sres, tr) \<and>
           tr = ftr @ ThreadStart port # Bind port # rest \<and>
           filter is_thread_start rest = [] \<and>
           r = \<lparr>exit_by = (case sres of Inr _ \<Rightarrow> Finished
                             | Inl e \<Rightarrow> if e = KeyboardInterrupt then SysExit 0 else Uncaught e),
                 main_thread = tr @ (if sres = Inl KeyboardInterrupt
                                     then [Print (CHR 0x0A # ''Server stopped.'')] else []),
                 safari_thread = Some (open_in_safari (os_system w) port)\<rparr>"
proof -
  from main_server_runs[OF assms] obtain sres tr where
    s: "start_server (server_tcp w) (serve w) port (ftr @ [ThreadStart port]) = Some (sres, tr)"
    by blast
  from server_trace[OF s] obtain rest where
    rest: "tr = (ftr @ [ThreadStart port]) @ Bind port # rest" "filter is_thread_start rest = []"
    by auto
  from main_server[OF assms(2) s] assms(1) s rest show ?thesis
    by (intro exI[of _ sres] exI[of _ tr] exI[of _ rest]) simp
qed

subsection \<open>The main block: concrete runs\<close>

lemma finder_all_free: "find_available_port all_free 8000 = Some (Inr 8000, [Bind 8000, Close 8000])"
  unfolding find_available_port_def
  by (subst find_available_port_loop.simps) (simp add: all_free_def)

lemma finder_busy_window:
  "find_available_port busy_window 8000 =
     Some (Inl (Exception ''Could not find available port''), map Bind [8000..8000 + 100])"
proof -
  have "\<forall>q. 8000 \<le> q \<and> q \<le> 8000 + 100 \<longrightarrow> (\<exists>e. busy_window q = Raises e \<and> address_in_use e)"
    by (simp add: busy_window_def)
  from loop_exhausted[OF this, of "[]"] show ?thesis
    by (simp only: find_available_port_def append_Nil)
qed

lemma server_race:
  "start_server busy_8000 interrupted 8000 tr =
     Some (Inl KeyboardInterrupt,
           tr @ [Bind 8000, Print ''Port 8000 is already in use, trying port 8001'',
                 Bind 8001, Print ''Server running at http://localhost:8001/'',
                 Print ''Press Ctrl+C to stop the server'', ServeForever 8001, Close 8001])"
proof -
  have "start_server busy_8000 interrupted 8000 tr =
        start_server busy_8000 interrupted (8000 + 1) (tr @ [Bind 8000, Print (in_use_msg 8000)])"
    by (rule server_in_use_step[of busy_8000 8000 "OSError (Some 48)"])
       (simp_all add: busy_8000_def)
  also have "\<dots> = Some (Inl KeyboardInterrupt,
        (tr @ [Bind 8000, Print (in_use_msg 8000)]) @
        [Bind (8000 + 1), Print (running_msg (8000 + 1)),
         Print ''Press Ctrl+C to stop the server'', ServeForever (8000 + 1), Close (8000 + 1)])"
    by (rule server_serve_raises[of busy_8000 "8000 + 1" "()" interrupted KeyboardInterrupt])
       (simp_all add: busy_8000_def interrupted_def)
  finally show ?thesis
    by (simp add: in_use_msg_def running_msg_def str_8000 str_8001 url_8001)
qed

lemma server_quiet:
  "start_server all_free interrupted 8000 tr =
     Some (Inl KeyboardInterrupt,
           tr @ [Bind 8000, Print ''Server running at http://localhost:8000/'',
                 Print ''Press Ctrl+C to stop the server'', ServeForever 8000, Close 8000])"
  using server_serve_raises[of all_free 8000 "()" interrupted KeyboardInterrupt tr]
  by (simp add: all_free_def interrupted_def running_msg_def url_8000)

lemma main_race_world:
  "main race_world =
     Some \<lparr>exit_by = SysExit 0,
           main_thread =
             [Bind 8000, Close 8000, ThreadStart 8000,
              Bind 8000, Print ''Port 8000 is already in use, trying port 8001'',
              Bind 8001, Print ''Server running at http://localhost:8001/'',
              Print ''Press Ctrl+C to stop the server'', ServeForever 8001, Close 8001,
              Print (CHR 0x0A # ''Server stopped.'')],
           safari_thread =
             Some [Sleep,
                   OsSystem (''open -a Safari '' @ [CHR 0x22] @ ''http://localhost:8000/'' @ [CHR 0x22]),
                   Print ''Opening http://localhost:8000/ in Safari...'']\<rparr>"
proof -
  have f: "find_available_port (finder_tcp race_world) 8000 =
           Some (Inr 8000, [Bind 8000, Close 8000])"
    by (simp add: race_world_def finder_all_free)
  have s: "start_server (server_tcp race_world) (serve race_world) 8000
             ([Bind 8000, Close 8000] @ [ThreadStart 8000]) =
           Some (Inl KeyboardInterrupt,
                 ([Bind 8000, Close 8000] @ [ThreadStart 8000]) @
                 [Bind 8000, Print ''Port 8000 is already in use, trying port 8001'',
                  Bind 8001, Print ''Server running at http://localhost:8001/'',
                  Print ''Press Ctrl+C to stop the server'', ServeForever 8001, Close 8001])"
    by (simp only: race_world_def world.simps server_race)
  from main_server[OF f s] show ?thesis
    by (simp add: race_world_def safari_ok_8000)
qed

lemma main_quiet_world:
  "main quiet_world =
     Some \<lparr>exit_by = SysExit 0,
           main_thread =
             [Bind 8000, Close 8000, ThreadStart 8000,
              Bind 8000, Print ''Server running at http://localhost:8000/'',
              Print ''Press Ctrl+C to stop the server'', ServeForever 8000, Close 8000,
              Print (CHR 0x0A # ''Server stopped.'')],
           safari_thread =
             Some [Sleep,
                   OsSystem (''open -a Safari '' @ [CHR 0x22] @ ''http://localhost:8000/'' @ [CHR 0x22]),
                   WebbrowserOpen ''http://localhost:8000/'',
                   Print ''Opening http://localhost:8000/ in default browser...'']\<rparr>"
proof -
  have f: "find_available_port (finder_tcp quiet_world) 8000 =
           Some (Inr 8000, [Bind 8000, Close 8000])"
    by (simp add: quiet_world_def finder_all_free)
  have s: "start_server (server_tcp quiet_world) (serve quiet_world) 8000
             ([Bind 8000, Close 8000] @ [ThreadStart 8000]) =
           Some (Inl KeyboardInterrupt,
                 ([Bind 8000, Close 8000] @ [ThreadStart 8000]) @
                 [Bind 8000, Print ''Server running at http://localhost:8000/'',
                  Print ''Press Ctrl+C to stop the server'', ServeForever 8000, Close 8000])"
    by (simp only: quiet_world_def world.simps server_quiet)
  from main_server[OF f s] show ?thesis
    by (simp add: quiet_world_def safari_raises_8000)
qed


subsection \<open>Launcher: a failing Safari command\<close>

text \<open>
  The handler of \<open>open_in_safari\<close> is reached only when the \<^verbatim>\<open>os.system\<close> call itself
  raises. A command that fails (no \<^verbatim>\<open>open\<close> program, no Safari) is reported by the value
  \<^verbatim>\<open>os.system\<close> returns, which the source discards.
\<close>

lemma open_in_safari_returns:
  "sys (safari_cmd (url_of port)) = Returns st \<Longrightarrow>
   open_in_safari sys port =
     [Sleep, OsSystem (safari_cmd (url_of port)), Print (safari_msg (url_of port))]"
  by (simp add: open_in_safari_def Let_def)

lemma open_in_safari_raises:
  "sys (safari_cmd (url_of port)) = Raises e \<Longrightarrow>
   open_in_safari sys port =
     [Sleep, OsSystem (safari_cmd (url_of port)), WebbrowserOpen (url_of port),
      Print (default_msg (url_of port))]"
  by (simp add: open_in_safari_def Let_def)



text \<open>
  C3. The launcher is specified to fall back to the default browser when the Safari
  invocation cannot be made, and to print which path it took. On a system where the shell
  cannot run \<^verbatim>\<open>open -a Safari\<close>, \<^verbatim>\<open>os.system\<close> returns 32512; \<open>open_in_safari\<close> then
  prints the Safari line and never calls \<^verbatim>\<open>webbrowser.open\<close>: the fallback that the
  source's comment announces is not taken.
\<close>

theorem open_in_safari_no_fallback_on_failed_command:
  "system_missing (''open -a Safari '' @ [CHR 0x22] @ ''http://localhost:8000/'' @ [CHR 0x22]) =
     Returns 32512 \<and>
   open_in_safari system_missing 8000 =
     [Sleep, OsSystem (''open -a Safari '' @ [CHR 0x22] @ ''http://localhost:8000/'' @ [CHR 0x22]),
      Print ''Opening http://localhost:8000/ in Safari...''] \<and>
   WebbrowserOpen ''http://localhost:8000/'' \<notin> set (open_in_safari system_missing 8000)"
  using open_in_safari_returns[of system_missing 8000 32512]
  by (simp add: system_missing_def url_8000 safari_cmd_def safari_msg_def)

subsection \<open>The main block: order of events\<close>

text \<open>
  C8. In the main program the port finder always comes to an end first. If it raises,
  the run ends there with its probes as the only events: no thread is started and the
  server binds nothing. If it returns \<open>port\<close>, the main thread's events are the finder's
  complete probe sequence, then the start of the launcher thread with \<open>port\<close>, then the
  server's first bind, on that same \<open>port\<close>; the launcher thread runs
  \<open>open_in_safari\<close> on \<open>port\<close> and \<open>start_server\<close> is called on \<open>port\<close>.
\<close>

theorem main_port_order:
  "(\<exists>res ftr. find_available_port (finder_tcp w) 8000 = Some (res, ftr)) \<and>
   (find_available_port (finder_tcp w) 8000 = Some (Inl e, ftr) \<longrightarrow>
      main w = Some \<lparr>exit_by = Uncaught e, main_thread = ftr, safari_thread = None\<rparr>) \<and>
   (main w = Some r \<and> find_available_port (finder_tcp w) 8000 = Some (Inr port, ftr) \<longrightarrow>
      ftr = map Bind [8000..port] @ [Close port] \<and>
      (\<exists>rest. main_thread r = ftr @ ThreadStart port # Bind port # rest) \<and>
      safari_thread r = Some (open_in_safari (os_system w) port) \<and>
      (\<exists>sres tr. start_server (server_tcp w) (serve w) port (ftr @ [ThreadStart port]) =
                   Some (sres, tr)))"
proof (intro conjI impI)
  from loop_returns[of "finder_tcp w" 8000 8000 "[]"]
  show "\<exists>res ftr. find_available_port (finder_tcp w) 8000 = Some (res, ftr)"
    by (auto simp: find_available_port_def)
next
  assume "find_available_port (finder_tcp w) 8000 = Some (Inl e, ftr)"
  then show "main w = Some \<lparr>exit_by = Uncaught e, main_thread = ftr, safari_thread = None\<rparr>"
    by (rule main_finder_raises)
next
  assume h: "main w = Some r \<and> find_available_port (finder_tcp w) 8000 = Some (Inr port, ftr)"
  then have m: "main w = Some r"
    and f: "find_available_port (finder_tcp w) 8000 = Some (Inr port, ftr)"
    by simp_all
  from finder_trace[OF f] show "ftr = map Bind [8000..port] @ [Close port]" by simp
  from main_thread_shape[OF m f] obtain sres tr rest where
    s: "start_server (server_tcp w) (serve w) port (ftr @ [ThreadStart port]) = Some (sres, tr)"
    and tr: "tr = ftr @ ThreadStart port # Bind port # rest"
    and r: "r = \<lparr>exit_by = (case sres of Inr _ \<Rightarrow> Finished
                             | Inl e \<Rightarrow> if e = KeyboardInterrupt then SysExit 0 else Uncaught e),
                 main_thread = tr @ (if sres = Inl KeyboardInterrupt
                                     then [Print (CHR 0x0A # ''Server stopped.'')] else []),
                 safari_thread = Some (open_in_safari (os_system w) port)\<rparr>"
    by blast
  from r tr show "\<exists>rest. main_thread r = ftr @ ThreadStart port # Bind port # rest"
    by simp
  from r show "safari_thread r = Some (open_in_safari (os_system w) port)"
    by simp
  from s show "\<exists>sres tr. start_server (server_tcp w) (serve w) port (ftr @ [ThreadStart port]) =
                   Some (sres, tr)"
    by blast
qed

theorem main_port_order_witness:
  "find_available_port (finder_tcp exhausted_world) 8000 =
     Some (Inl (Exception ''Could not find available port''), map Bind [8000..8000 + 100]) \<and>
   main exhausted_world =
     Some \<lparr>exit_by = Uncaught (Exception ''Could not find available port''),
           main_thread = map Bind [8000..8000 + 100], safari_thread = None\<rparr> \<and>
   find_available_port (finder_tcp quiet_world) 8000 = Some (Inr 8000, [Bind 8000, Close 8000]) \<and>
   (\<exists>r. main quiet_world = Some r \<and>
        (\<exists>rest. main_thread r = [Bind 8000, Close 8000] @ ThreadStart 8000 # Bind 8000 # rest) \<and>
        safari_thread r = Some (open_in_safari (os_system quiet_world) 8000))"
proof -
  have a: "find_available_port (finder_tcp exhausted_world) 8000 =
     Some (Inl (Exception ''Could not find available port''), map Bind [8000..8000 + 100])"
    by (simp only: exhausted_world_def world.simps finder_busy_window)
  have b: "find_available_port (finder_tcp quiet_world) 8000 =
           Some (Inr 8000, [Bind 8000, Close 8000])"
    by (simp add: quiet_world_def finder_all_free)
  obtain r where r: "main quiet_world = Some r"
    using main_quiet_world by blast
  from a b r
       main_port_order [where w = exhausted_world
                          and e = "Exception ''Could not find available port''"
                          and ftr = "map Bind [8000..8000 + 100]"]
       main_port_order [where w = quiet_world and r = r and port = 8000
                          and ftr = "[Bind 8000, Close 8000]"]
  show ?thesis by blast
qed

subsection \<open>The main block: user interrupt\<close>

text \<open>
  C7. When the user interrupts the running server (\<^verbatim>\<open>serve_forever\<close> raises
  \<open>KeyboardInterrupt\<close> on the bound server), the main block catches it, prints the
  shutdown line as its last event and leaves through \<^verbatim>\<open>sys.exit(0)\<close>; the same holds
  whenever \<open>start_server\<close> raises \<open>KeyboardInterrupt\<close>, also after retries. It is the only
  such path: a run that leaves through \<^verbatim>\<open>sys.exit\<close> has status 0 and is one in which the
  port finder returned a port and \<open>start_server\<close> raised \<open>KeyboardInterrupt\<close>. Every other
  exception leaves the program uncaught. (Were \<^verbatim>\<open>serve_forever\<close> to return, which needs a
  call of \<^verbatim>\<open>shutdown()\<close> that the script never makes, the script would run to its end
  without a shutdown line: the outcome \<open>Finished\<close>.)
\<close>

theorem interrupt_exits_with_status_0:
  "(find_available_port (finder_tcp w) 8000 = Some (Inr p, ftr) \<and>
    server_tcp w p = Returns () \<and> serve w p = Raises KeyboardInterrupt \<longrightarrow>
      main w =
        Some \<lparr>exit_by = SysExit 0,
              main_thread =
                ftr @ [ThreadStart p, Bind p, Print (running_msg p),
                       Print ''Press Ctrl+C to stop the server'', ServeForever p, Close p,
                       Print (CHR 0x0A # ''Server stopped.'')],
              safari_thread = Some (open_in_safari (os_system w) p)\<rparr>) \<and>
   (find_available_port (finder_tcp w) 8000 = Some (Inr p, ftr) \<and>
    start_server (server_tcp w) (serve w) p (ftr @ [ThreadStart p]) =
      Some (Inl KeyboardInterrupt, tr) \<longrightarrow>
      main w =
        Some \<lparr>exit_by = SysExit 0,
              main_thread = tr @ [Print (CHR 0x0A # ''Server stopped.'')],
              safari_thread = Some (open_in_safari (os_system w) p)\<rparr>) \<and>
   (main w = Some r \<and> exit_by r = SysExit c \<longrightarrow>
      c = 0 \<and>
      (\<exists>q ftr' tr'.
         find_available_port (finder_tcp w) 8000 = Some (Inr q, ftr') \<and>
         start_server (server_tcp w) (serve w) q (ftr' @ [ThreadStart q]) =
           Some (Inl KeyboardInterrupt, tr') \<and>
         main_thread r = tr' @ [Print (CHR 0x0A # ''Server stopped.'')]))"
proof -
  have direct:
    "find_available_port (finder_tcp w) 8000 = Some (Inr p, ftr) \<and>
     server_tcp w p = Returns () \<and> serve w p = Raises KeyboardInterrupt \<longrightarrow>
      main w =
        Some \<lparr>exit_by = SysExit 0,
              main_thread =
                ftr @ [ThreadStart p, Bind p, Print (running_msg p),
                       Print ''Press Ctrl+C to stop the server'', ServeForever p, Close p,
                       Print (CHR 0x0A # ''Server stopped.'')],
              safari_thread = Some (open_in_safari (os_system w) p)\<rparr>"
  proof
    assume "find_available_port (finder_tcp w) 8000 = Some (Inr p, ftr) \<and>
      server_tcp w p = Returns () \<and> serve w p = Raises KeyboardInterrupt"
    then have f: "find_available_port (finder_tcp w) 8000 = Some (Inr p, ftr)"
      and b: "server_tcp w p = Returns ()" and s: "serve w p = Raises KeyboardInterrupt"
      by simp_all
    have n: "\<not> address_in_use KeyboardInterrupt" by simp
    note run = server_serve_raises
                 [of "server_tcp w" p "()" "serve w" KeyboardInterrupt "ftr @ [ThreadStart p]",
                  OF b s n]
    from main_server[OF f run]
    show "main w =
        Some \<lparr>exit_by = SysExit 0,
              main_thread =
                ftr @ [ThreadStart p, Bind p, Print (running_msg p),
                       Print ''Press Ctrl+C to stop the server'', ServeForever p, Close p,
                       Print (CHR 0x0A # ''Server stopped.'')],
              safari_thread = Some (open_in_safari (os_system w) p)\<rparr>"
      by simp
  qed
  have general:
    "find_available_port (finder_tcp w) 8000 = Some (Inr p, ftr) \<and>
     start_server (server_tcp w) (serve w) p (ftr @ [ThreadStart p]) =
       Some (Inl KeyboardInterrupt, tr) \<longrightarrow>
      main w =
        Some \<lparr>exit_by = SysExit 0,
              main_thread = tr @ [Print (CHR 0x0A # ''Server stopped.'')],
              safari_thread = Some (open_in_safari (os_system w) p)\<rparr>"
  proof
    assume "find_available_port (finder_tcp w) 8000 = Some (Inr p, ftr) \<and>
      start_server (server_tcp w) (serve w) p (ftr @ [ThreadStart p]) =
        Some (Inl KeyboardInterrupt, tr)"
    then have f: "find_available_port (finder_tcp w) 8000 = Some (Inr p, ftr)"
      and s: "start_server (server_tcp w) (serve w) p (ftr @ [ThreadStart p]) =
              Some (Inl KeyboardInterrupt, tr)"
      by simp_all
    from main_server[OF f s]
    show "main w =
        Some \<lparr>exit_by = SysExit 0,
              main_thread = tr @ [Print (CHR 0x0A # ''Server stopped.'')],
              safari_thread = Some (open_in_safari (os_system w) p)\<rparr>"
      by simp
  qed
  have only:
    "main w = Some r \<and> exit_by r = SysExit c \<longrightarrow>
      c = 0 \<and>
      (\<exists>q ftr' tr'.
         find_available_port (finder_tcp w) 8000 = Some (Inr q, ftr') \<and>
         start_server (server_tcp w) (serve w) q (ftr' @ [ThreadStart q]) =
           Some (Inl KeyboardInterrupt, tr') \<and>
         main_thread r = tr' @ [Print (CHR 0x0A # ''Server stopped.'')])"
  proof
    assume "main w = Some r \<and> exit_by r = SysExit c"
    then have m: "main w = Some r" and x: "exit_by r = SysExit c"
      by simp_all
    from loop_returns[of "finder_tcp w" 8000 8000 "[]"]
    obtain res ftr' where f: "find_available_port (finder_tcp w) 8000 = Some (res, ftr')"
      by (auto simp: find_available_port_def)
    show "c = 0 \<and>
      (\<exists>q ftr' tr'.
         find_available_port (finder_tcp w) 8000 = Some (Inr q, ftr') \<and>
         start_server (server_tcp w) (serve w) q (ftr' @ [ThreadStart q]) =
           Some (Inl KeyboardInterrupt, tr') \<and>
         main_thread r = tr' @ [Print (CHR 0x0A # ''Server stopped.'')])"
    proof (cases res)
      case (Inl e)
      with f main_finder_raises[of w e ftr'] m x show ?thesis by simp
    next
      case (Inr q)
      with f have fq: "find_available_port (finder_tcp w) 8000 = Some (Inr q, ftr')"
        by simp
      from main_thread_shape[OF m fq] obtain sres tr' where
        s: "start_server (server_tcp w) (serve w) q (ftr' @ [ThreadStart q]) = Some (sres, tr')"
        and r: "r = \<lparr>exit_by = (case sres of Inr _ \<Rightarrow> Finished
                                 | Inl e \<Rightarrow> if e = KeyboardInterrupt then SysExit 0 else Uncaught e),
                     main_thread = tr' @ (if sres = Inl KeyboardInterrupt
                                          then [Print (CHR 0x0A # ''Server stopped.'')] else []),
                     safari_thread = Some (open_in_safari (os_system w) q)\<rparr>"
        by blast
      from r x have k: "sres = Inl KeyboardInterrupt \<and> c = 0"
        by (cases sres) (auto split: if_splits)
      with r have "main_thread r = tr' @ [Print (CHR 0x0A # ''Server stopped.'')]"
        by simp
      with k s fq show ?thesis by blast
    qed
  qed
  show ?thesis
    by (intro conjI direct general only)
qed

theorem interrupt_exits_with_status_0_witness:
  "find_available_port (finder_tcp quiet_world) 8000 = Some (Inr 8000, [Bind 8000, Close 8000]) \<and>
   server_tcp quiet_world 8000 = Returns () \<and>
   serve quiet_world 8000 = Raises KeyboardInterrupt \<and>
   main quiet_world =
     Some \<lparr>exit_by = SysExit 0,
           main_thread =
             [Bind 8000, Close 8000] @
             [ThreadStart 8000, Bind 8000, Print (running_msg 8000),
              Print ''Press Ctrl+C to stop the server'', ServeForever 8000, Close 8000,
              Print (CHR 0x0A # ''Server stopped.'')],
           safari_thread = Some (open_in_safari (os_system quiet_world) 8000)\<rparr> \<and>
   (\<exists>r. main race_world = Some r \<and> exit_by r = SysExit 0 \<and>
        (\<exists>q ftr' tr'.
           find_available_port (finder_tcp race_world) 8000 = Some (Inr q, ftr') \<and>
           start_server (server_tcp race_world) (serve race_world) q (ftr' @ [ThreadStart q]) =
             Some (Inl KeyboardInterrupt, tr') \<and>
           main_thread r = tr' @ [Print (CHR 0x0A # ''Server stopped.'')]))"
proof -
  have a: "find_available_port (finder_tcp quiet_world) 8000 =
           Some (Inr 8000, [Bind 8000, Close 8000]) \<and>
           server_tcp quiet_world 8000 = Returns () \<and>
           serve quiet_world 8000 = Raises KeyboardInterrupt"
    by (simp add: quiet_world_def finder_all_free all_free_def interrupted_def)
  obtain r where r: "main race_world = Some r \<and> exit_by r = SysExit 0"
    using main_race_world by simp
  from a r
       interrupt_exits_with_status_0
         [where w = quiet_world and p = 8000 and ftr = "[Bind 8000, Close 8000]"]
       interrupt_exits_with_status_0 [where w = race_world and r = r and c = 0]
  show ?thesis by blast
qed

subsection \<open>The main block: the port in the browser URL\<close>




end
